theory Spec2Isabelle
  imports Main "HOL-Library.Word" "HOL-Library.AList"
begin

unbundle bit_operations_syntax

section \<open>Runtime values\<close>

text \<open>
  The values that reach \<open>validate\<close> are the plain data the codec produces: the absent
  markers, booleans, strings, numbers (IEEE-754 doubles, kept as their 64-bit pattern),
  byte arrays, arrays and plain objects. An object is the list of its own properties in
  property order. Inherited properties (methods, \<open>__proto__\<close>) and array holes are
  outside the model; a property read sees own properties and the \<open>length\<close> of arrays and
  byte arrays.
\<close>

type_synonym f64 = "64 word"

datatype jsval =
    VUndefined
  | VNull
  | VBool bool
  | VStr string
  | VNum f64
  | VBytes "8 word list"
  | VArr "jsval list"
  | VObj "(string \<times> jsval) list"

fun typeof :: "jsval \<Rightarrow> string" where
  "typeof VUndefined = ''undefined''"
| "typeof VNull = ''object''"
| "typeof (VBool b) = ''boolean''"
| "typeof (VStr s) = ''string''"
| "typeof (VNum n) = ''number''"
| "typeof (VBytes bs) = ''object''"
| "typeof (VArr xs) = ''object''"
| "typeof (VObj kvs) = ''object''"

subsection \<open>Numbers\<close>

definition is_nan :: "f64 \<Rightarrow> bool" where
  "is_nan w \<longleftrightarrow> w AND 0x7FF0000000000000 = 0x7FF0000000000000 \<and> w AND 0x000FFFFFFFFFFFFF \<noteq> 0"

definition is_zero :: "f64 \<Rightarrow> bool" where
  "is_zero w \<longleftrightarrow> w AND 0x7FFFFFFFFFFFFFFF = 0"

text \<open>The comparison \<open>===\<close> on two numbers: IEEE equality.\<close>

definition strict_equals_num :: "f64 \<Rightarrow> f64 \<Rightarrow> bool" where
  "strict_equals_num a b \<longleftrightarrow> \<not> is_nan a \<and> \<not> is_nan b \<and> (a = b \<or> (is_zero a \<and> is_zero b))"

text \<open>The comparison \<open>Array.prototype.includes\<close> makes on two numbers: SameValueZero.\<close>

definition same_value_zero :: "f64 \<Rightarrow> f64 \<Rightarrow> bool" where
  "same_value_zero a b \<longleftrightarrow> (is_nan a \<and> is_nan b) \<or> a = b \<or> (is_zero a \<and> is_zero b)"

definition includes_num :: "f64 list \<Rightarrow> f64 \<Rightarrow> bool" where
  "includes_num literalValues n = list_ex (\<lambda>l. same_value_zero l n) literalValues"

definition nan :: f64 where
  "nan = 0x7FF8000000000000"

fun bit_length :: "nat \<Rightarrow> nat" where
  "bit_length 0 = 0"
| "bit_length (Suc n) = Suc (bit_length (Suc n div 2))"

text \<open>The double of a natural number below \<open>2 ^ 53\<close> (array lengths and bytes are).\<close>

definition f64_of_nat :: "nat \<Rightarrow> f64" where
  "f64_of_nat n =
     (if n = 0 then 0
      else let e = bit_length n - 1
           in push_bit 52 (of_nat (e + 1023)) + of_nat ((n - 2 ^ e) * 2 ^ (52 - e)))"

subsection \<open>Property reads and writes\<close>

function string_of_nat :: "nat \<Rightarrow> string" where
  "string_of_nat n =
     (if n < 10 then [''0123456789'' ! n]
      else string_of_nat (n div 10) @ [''0123456789'' ! (n mod 10)])"
  by pat_completeness auto
termination
  by (relation "measure id") auto

declare string_of_nat.simps [simp del]

definition index_props :: "jsval list \<Rightarrow> (string \<times> jsval) list" where
  "index_props xs = zip (map string_of_nat [0..<length xs]) xs"

text \<open>The own enumerable properties of a value, as \<open>Object.assign\<close> copies them.\<close>

fun own_enumerable :: "jsval \<Rightarrow> (string \<times> jsval) list" where
  "own_enumerable (VObj kvs) = kvs"
| "own_enumerable (VArr xs) = index_props xs"
| "own_enumerable (VBytes bs) = index_props (map (\<lambda>b. VNum (f64_of_nat (unat b))) bs)"
| "own_enumerable (VStr s) = index_props (map (\<lambda>c. VStr [c]) s)"
| "own_enumerable v = []"

datatype error =
    InvalidTypeError string string jsval
  | LiteralError string "jsval list" jsval
  | MissingDiscriminator string string string
  | JsTypeError
  | CodecError

text \<open>
  \<open>InvalidTypeError name expectedType value\<close> is the class of that name; the expected
  type \<open>''object''\<close> is the specification's NotAnObject, \<open>''array''\<close> its NotAnArray and
  \<open>''union''\<close> its NoMatchingBranch. \<open>LiteralError\<close> is the plain \<open>Error\<close> that \<open>str\<close>
  and \<open>num\<close> throw for a value outside the literal values, \<open>MissingDiscriminator\<close> the
  plain \<open>Error\<close> of the union constructor (subschema, union, discriminator),
  \<open>JsTypeError\<close> a \<open>TypeError\<close> raised by the runtime itself and \<open>CodecError\<close> a failure
  of \<open>unpack\<close>.
\<close>

fun lookup_default :: "(string \<times> jsval) list \<Rightarrow> string \<Rightarrow> jsval" where
  "lookup_default kvs key = (case map_of kvs key of Some v \<Rightarrow> v | None \<Rightarrow> VUndefined)"

text \<open>The read \<open>u[key]\<close>.\<close>

fun get_prop :: "jsval \<Rightarrow> string \<Rightarrow> error + jsval" where
  "get_prop VUndefined key = Inl JsTypeError"
| "get_prop VNull key = Inl JsTypeError"
| "get_prop (VObj kvs) key = Inr (lookup_default kvs key)"
| "get_prop (VArr xs) key =
     Inr (if key = ''length'' then VNum (f64_of_nat (length xs))
          else lookup_default (index_props xs) key)"
| "get_prop (VBytes bs) key =
     Inr (if key = ''length'' then VNum (f64_of_nat (length bs))
          else lookup_default (own_enumerable (VBytes bs)) key)"
| "get_prop (VStr s) key =
     Inr (if key = ''length'' then VNum (f64_of_nat (length s))
          else lookup_default (own_enumerable (VStr s)) key)"
| "get_prop v key = Inr VUndefined"

text \<open>The write \<open>result[key] = value\<close> on an object.\<close>

definition set_prop :: "(string \<times> jsval) list \<Rightarrow> string \<Rightarrow> jsval \<Rightarrow> (string \<times> jsval) list" where
  "set_prop result key v = AList.update key v result"

definition object_assign :: "(string \<times> jsval) list \<Rightarrow> jsval \<Rightarrow> (string \<times> jsval) list" where
  "object_assign target source = fold (\<lambda>(k, v) t. set_prop t k v) (own_enumerable source) target"

section \<open>Schemas\<close>

datatype schema =
    BoolType string "bool option"
  | StringType string "string list"
  | NumberType string "f64 list"
  | Uint8ArrayType string
  | OptionalType schema
  | RecordType string "(string \<times> schema) list"
  | ExtendsType string schema "(string \<times> schema) list"
  | UnionRecordType string string "schema list"
  | ListType string schema

text \<open>
  The field table of a record or extension is the list \<open>Object.entries\<close> gives for it.
  \<open>OptionalType\<close> passes the empty name to its superclass.
\<close>

fun schema_name :: "schema \<Rightarrow> string" where
  "schema_name (BoolType name l) = name"
| "schema_name (StringType name ls) = name"
| "schema_name (NumberType name ls) = name"
| "schema_name (Uint8ArrayType name) = name"
| "schema_name (OptionalType base) = []"
| "schema_name (RecordType name schema) = name"
| "schema_name (ExtendsType name baseType schema) = name"
| "schema_name (UnionRecordType name discriminator schemas) = name"
| "schema_name (ListType name itemSchema) = name"

fun bool_toString :: "bool \<Rightarrow> string" where
  "bool_toString True = ''true''"
| "bool_toString False = ''false''"

subsection \<open>The loops of validate\<close>

text \<open>The loop of \<open>RecordType.validate\<close> over \<open>Object.entries(this.schema)\<close>.\<close>

fun validate_entries ::
  "(schema \<Rightarrow> jsval \<Rightarrow> error + jsval) \<Rightarrow> (string \<times> schema) list \<Rightarrow> string list \<Rightarrow> jsval
     \<Rightarrow> (string \<times> jsval) list \<Rightarrow> error + (string \<times> jsval) list" where
  "validate_entries vf [] ignoredKeys u result = Inr result"
| "validate_entries vf ((key, validator) # es) ignoredKeys u result =
     (if key \<in> set ignoredKeys then validate_entries vf es ignoredKeys u result
      else case get_prop u key of
          Inl e \<Rightarrow> Inl e
        | Inr propValue \<Rightarrow>
            (case vf validator propValue of
               Inl e \<Rightarrow> Inl e
             | Inr validatedValue \<Rightarrow>
                 validate_entries vf es ignoredKeys u (set_prop result key validatedValue)))"

definition validate_record ::
  "(schema \<Rightarrow> jsval \<Rightarrow> error + jsval) \<Rightarrow> string \<Rightarrow> (string \<times> schema) list \<Rightarrow> jsval
     \<Rightarrow> string list \<Rightarrow> error + jsval" where
  "validate_record vf name schema u ignoredKeys =
     (if typeof u \<noteq> ''object'' then Inl (InvalidTypeError name ''object'' u)
      else case validate_entries vf schema ignoredKeys u [] of
          Inl e \<Rightarrow> Inl e
        | Inr result \<Rightarrow> Inr (VObj result))"

text \<open>The loop of \<open>ListType.validate\<close>.\<close>

fun validate_items :: "(jsval \<Rightarrow> error + jsval) \<Rightarrow> jsval list \<Rightarrow> error + jsval list" where
  "validate_items vf [] = Inr []"
| "validate_items vf (i # is) =
     (case vf i of
        Inl e \<Rightarrow> Inl e
      | Inr v \<Rightarrow> (case validate_items vf is of Inl e \<Rightarrow> Inl e | Inr vs \<Rightarrow> Inr (v # vs)))"

text \<open>
  \<open>Object.keys(s.schema)\<close> for a branch \<open>s\<close> of a union: only records and extensions have
  the property \<open>schema\<close>; on any other node it is \<open>undefined\<close> and \<open>Object.keys\<close> throws.
\<close>

fun schema_keys :: "schema \<Rightarrow> string list option" where
  "schema_keys (RecordType name schema) = Some (map fst schema)"
| "schema_keys (ExtendsType name baseType schema) = Some (map fst schema)"
| "schema_keys s = None"

text \<open>
  \<open>ignoredKeys.splice(ignoredKeys.indexOf(discriminator), 1)\<close>: the first occurrence is
  removed; when there is none, \<open>indexOf\<close> is \<open>-1\<close> and \<open>splice\<close> removes the last key.
\<close>

definition splice_discriminator :: "string \<Rightarrow> string list \<Rightarrow> string list" where
  "splice_discriminator discriminator keys =
     (if discriminator \<in> set keys then remove1 discriminator keys else butlast keys)"

text \<open>The call \<open>this.schemas.find(...)\<close> of \<open>UnionRecordType.validate\<close>.\<close>

fun find_schema ::
  "(schema \<Rightarrow> string list \<Rightarrow> error + jsval) \<Rightarrow> string \<Rightarrow> schema list \<Rightarrow> error + schema option" where
  "find_schema vf discriminator [] = Inr None"
| "find_schema vf discriminator (s # ss) =
     (case schema_keys s of
        None \<Rightarrow> Inl JsTypeError
      | Some keys \<Rightarrow>
          (case vf s (splice_discriminator discriminator keys) of
             Inr v \<Rightarrow> Inr (Some s)
           | Inl e \<Rightarrow> find_schema vf discriminator ss))"

lemma validate_entries_ext:
  "(\<And>k s x. (k, s) \<in> set es \<Longrightarrow> vf s x = vf' s x)
     \<Longrightarrow> validate_entries vf es ign u r = validate_entries vf' es ign u r"
proof (induction es arbitrary: r)
  case Nil
  then show ?case by simp
next
  case (Cons a es)
  obtain k s where a: "a = (k, s)" by (cases a)
  have step: "vf s x = vf' s x" for x
    using Cons.prems [of k s x] a by simp
  have rest: "validate_entries vf es ign u r' = validate_entries vf' es ign u r'" for r'
  proof (rule Cons.IH)
    fix k' s' x
    assume "(k', s') \<in> set es"
    then show "vf s' x = vf' s' x"
      using Cons.prems [of k' s' x] by simp
  qed
  show ?case
    by (simp add: a step rest split: sum.splits)
qed

lemma validate_entries_cong [fundef_cong]:
  assumes "\<And>k s x. (k, s) \<in> set es \<Longrightarrow> vf s x = vf' s x"
    and "es = es'" and "ign = ign'" and "u = u'" and "r = r'"
  shows "validate_entries vf es ign u r = validate_entries vf' es' ign' u' r'"
  using validate_entries_ext [of es vf vf' ign u r] assms by simp

lemma validate_record_cong [fundef_cong]:
  assumes "\<And>k s x. (k, s) \<in> set es \<Longrightarrow> vf s x = vf' s x"
    and "name = name'" and "es = es'" and "u = u'" and "ign = ign'"
  shows "validate_record vf name es u ign = validate_record vf' name' es' u' ign'"
  using validate_entries_cong [of es vf vf' es' ign ign' u u' "[]" "[]"] assms
  by (simp add: validate_record_def)

lemma find_schema_cong [fundef_cong]:
  assumes "\<And>s ks. s \<in> set ss \<Longrightarrow> vf s ks = vf' s ks" and "d = d'" and "ss = ss'"
  shows "find_schema vf d ss = find_schema vf' d' ss'"
  using assms
  by (induction ss arbitrary: ss') (auto split: option.splits sum.splits)

lemma find_schema_mem: "find_schema vf d ss = Inr (Some s) \<Longrightarrow> s \<in> set ss"
  by (induction ss) (auto split: option.splits sum.splits)

lemma size_entry_less: "(k, s) \<in> set es \<Longrightarrow> size s < Suc (size_list (size_prod (\<lambda>_. 0) size) es)"
  by (induction es) auto

lemma size_branch_less: "s \<in> set ss \<Longrightarrow> size s < Suc (size_list size ss)"
  by (induction ss) auto

subsection \<open>validate\<close>

function validate :: "schema \<Rightarrow> jsval \<Rightarrow> string list \<Rightarrow> error + jsval" where
  "validate (BoolType name literalValue) b ignoredKeys =
     (case b of
        VBool x \<Rightarrow>
          (case literalValue of
             None \<Rightarrow> Inr b
           | Some l \<Rightarrow> if x \<noteq> l then Inl (InvalidTypeError name (bool_toString l) b) else Inr b)
      | _ \<Rightarrow> Inl (InvalidTypeError name ''boolean'' b))"
| "validate (StringType name literalValues) s ignoredKeys =
     (case s of
        VStr x \<Rightarrow>
          (if length literalValues > 0 \<and> \<not> x \<in> set literalValues
           then Inl (LiteralError name (map VStr literalValues) s) else Inr s)
      | _ \<Rightarrow> Inl (InvalidTypeError name ''string'' s))"
| "validate (NumberType name literalValues) n ignoredKeys =
     (case n of
        VNum x \<Rightarrow>
          (if length literalValues > 0 \<and> \<not> includes_num literalValues x
           then Inl (LiteralError name (map VNum literalValues) n) else Inr n)
      | _ \<Rightarrow> Inl (InvalidTypeError name ''number'' n))"
| "validate (Uint8ArrayType name) u ignoredKeys =
     (case u of VBytes bs \<Rightarrow> Inr u | _ \<Rightarrow> Inl (InvalidTypeError name ''u8array'' u))"
| "validate (OptionalType base) u ignoredKeys =
     (if u \<noteq> VNull \<and> u \<noteq> VUndefined then validate base u [] else Inr VUndefined)"
| "validate (RecordType name schema) u ignoredKeys =
     validate_record (\<lambda>validator propValue. validate validator propValue []) name schema u ignoredKeys"
| "validate (ExtendsType name baseType schema) u ignoredKeys =
     (case validate baseType u (map fst schema) of
        Inl e \<Rightarrow> Inl e
      | Inr baseResult \<Rightarrow>
          (case validate_record (\<lambda>validator propValue. validate validator propValue []) name schema u [] of
             Inl e \<Rightarrow> Inl e
           | Inr schemaResult \<Rightarrow>
               Inr (VObj (object_assign (object_assign [] baseResult) schemaResult))))"
| "validate (UnionRecordType name discriminator schemas) u ignoredKeys =
     (case find_schema (\<lambda>s keys. validate s u keys) discriminator schemas of
        Inl e \<Rightarrow> Inl e
      | Inr None \<Rightarrow> Inl (InvalidTypeError name ''union'' u)
      | Inr (Some schema) \<Rightarrow> validate schema u [])"
| "validate (ListType name itemSchema) u ignoredKeys =
     (case u of
        VArr xs \<Rightarrow>
          (case validate_items (\<lambda>i. validate itemSchema i []) xs of
             Inl e \<Rightarrow> Inl e
           | Inr result \<Rightarrow> Inr (VArr result))
      | _ \<Rightarrow> Inl (InvalidTypeError name ''array'' u))"
  by pat_completeness auto
termination
  by (relation "measure (\<lambda>(s, u, ks). size s)")
    (auto dest: size_entry_less size_branch_less find_schema_mem)

subsection \<open>hasKey and the union constructor\<close>

text \<open>
  \<open>hasKey\<close> exists on records, extensions and unions only: on another node the call
  \<open>s.hasKey(key)\<close> is a \<open>TypeError\<close> of the runtime, the result \<open>None\<close> here.
  \<open>hasKey_every\<close> is \<open>this.schemas.every(s => s.hasKey(key))\<close>.
\<close>

fun hasKey :: "schema \<Rightarrow> string \<Rightarrow> bool option"
  and hasKey_every :: "schema list \<Rightarrow> string \<Rightarrow> bool option" where
  "hasKey (RecordType name schema) key = Some (key \<in> set (map fst schema))"
| "hasKey (ExtendsType name baseType schema) key =
     (if key \<in> set (map fst schema) then Some True else hasKey baseType key)"
| "hasKey (UnionRecordType name discriminator schemas) key = hasKey_every schemas key"
| "hasKey (BoolType name l) key = None"
| "hasKey (StringType name ls) key = None"
| "hasKey (NumberType name ls) key = None"
| "hasKey (Uint8ArrayType name) key = None"
| "hasKey (OptionalType base) key = None"
| "hasKey (ListType name itemSchema) key = None"
| "hasKey_every [] key = Some True"
| "hasKey_every (s # ss) key =
     (case hasKey s key of
        None \<Rightarrow> None
      | Some False \<Rightarrow> Some False
      | Some True \<Rightarrow> hasKey_every ss key)"

text \<open>The loop of the constructor of \<open>UnionRecordType\<close>; \<open>None\<close> when it throws nothing.\<close>

fun check_subschemas :: "string \<Rightarrow> string \<Rightarrow> schema list \<Rightarrow> error option" where
  "check_subschemas name discriminator [] = None"
| "check_subschemas name discriminator (subschema # rest) =
     (case hasKey subschema discriminator of
        None \<Rightarrow> Some JsTypeError
      | Some False \<Rightarrow> Some (MissingDiscriminator (schema_name subschema) name discriminator)
      | Some True \<Rightarrow> check_subschemas name discriminator rest)"

definition union :: "string \<Rightarrow> string \<Rightarrow> schema list \<Rightarrow> error + schema" where
  "union name discriminator schemas =
     (case check_subschemas name discriminator schemas of
        Some e \<Rightarrow> Inl e
      | None \<Rightarrow> Inr (UnionRecordType name discriminator schemas))"

text \<open>
  The other builders construct their node and cannot fail: \<open>bool name l\<close> is
  \<open>BoolType name l\<close>, \<open>rec name schema\<close> is \<open>RecordType name schema\<close>, and so on.
  The helper type \<open>Recordish\<close> of the source covers the nodes made by \<open>rec\<close>,
  \<open>extend\<close> and \<open>union\<close>; the types of \<open>extend\<close> and \<open>union\<close> admit only
  such nodes as base and as branches.
\<close>

fun recordish :: "schema \<Rightarrow> bool" where
  "recordish (RecordType name schema) = True"
| "recordish (ExtendsType name baseType schema) = recordish baseType"
| "recordish (UnionRecordType name discriminator schemas) = list_all recordish schemas"
| "recordish s = False"

subsection \<open>serialize and deserialize\<close>



subsection \<open>The field table of a record-like schema\<close>



subsection \<open>The probe of a union branch\<close>

text \<open>
  The probe in the words of the specification: the branch's \<open>validate\<close> on the value
  with the branch's own field names minus the discriminator as ignored keys; it succeeds
  when that call does not fail. \<open>fielded_branch\<close> holds of the branches that have a
  field table: a record with the discriminator among its (pairwise different) field
  names, and an extension.
\<close>

definition probe_keys :: "string \<Rightarrow> schema \<Rightarrow> string list" where
  "probe_keys discriminator s =
     (case schema_keys s of Some keys \<Rightarrow> filter (\<lambda>k. k \<noteq> discriminator) keys | None \<Rightarrow> [])"

definition probe :: "string \<Rightarrow> jsval \<Rightarrow> schema \<Rightarrow> bool" where
  "probe discriminator u s =
     (case validate s u (probe_keys discriminator s) of Inr v \<Rightarrow> True | Inl e \<Rightarrow> False)"

fun fielded_branch :: "string \<Rightarrow> schema \<Rightarrow> bool" where
  "fielded_branch d (RecordType name schema) = (d \<in> set (map fst schema) \<and> distinct (map fst schema))"
| "fielded_branch d (ExtendsType name baseType schema) = True"
| "fielded_branch d s = False"

subsection \<open>Compositions named in the specification\<close>



subsection \<open>Schemas on which validation is idempotent\<close>





section \<open>Evaluation rules\<close>

lemmas eval_defs =
  validate_record_def object_assign_def set_prop_def splice_discriminator_def
  includes_num_def same_value_zero_def is_nan_def is_zero_def nan_def union_def
  index_props_def

lemma validate_RecordType_typeof:
  "typeof u \<noteq> ''object'' \<Longrightarrow>
     validate (RecordType name schema) u ignoredKeys = Inl (InvalidTypeError name ''object'' u)"
  by (simp add: validate_record_def)

section \<open>Keys of validated objects\<close>

lemma recordish_hasKey:
  "recordish s \<Longrightarrow> hasKey s key \<noteq> None"
  "list_all recordish ss \<Longrightarrow> hasKey_every ss key \<noteq> None"
  by (induction s key and ss key rule: hasKey_hasKey_every.induct)
    (auto split: option.splits bool.splits)

lemma check_subschemas_find:
  "list_all recordish schemas \<Longrightarrow>
     check_subschemas name d schemas =
       (case find (\<lambda>s. hasKey s d = Some False) schemas of
          None \<Rightarrow> None
        | Some s \<Rightarrow> Some (MissingDiscriminator (schema_name s) name d))"
  using recordish_hasKey(1)
  by (induction schemas) (auto split: option.splits bool.splits)

lemma check_subschemas_None:
  "list_all recordish schemas \<Longrightarrow>
     check_subschemas name d schemas = None \<longleftrightarrow> list_all (\<lambda>s. hasKey s d = Some True) schemas"
  using recordish_hasKey(1)
  by (induction schemas) (auto split: option.splits bool.splits)

lemma validate_entries_keys:
  "validate_entries vf es K u acc = Inr res \<Longrightarrow>
     fst ` set res = fst ` set acc \<union> (fst ` set es - set K)"
proof (induction es arbitrary: acc)
  case Nil
  then show ?case by simp
next
  case (Cons a es)
  obtain k s where a: "a = (k, s)" by (cases a)
  show ?case
  proof (cases "k \<in> set K")
    case True
    then have "validate_entries vf es K u acc = Inr res"
      using Cons.prems a by simp
    from Cons.IH [OF this] show ?thesis
      using True a by auto
  next
    case False
    then obtain x y where "get_prop u k = Inr x" "vf s x = Inr y"
      and rest: "validate_entries vf es K u (set_prop acc k y) = Inr res"
      using Cons.prems a by (auto split: sum.splits)
    have "fst ` set (set_prop acc k y) = insert k (fst ` set acc)"
      by (simp add: set_prop_def dom_update)
    with Cons.IH [OF rest] show ?thesis
      using False a by auto
  qed
qed

lemma validate_entries_distinct:
  "validate_entries vf es K u acc = Inr res \<Longrightarrow> distinct (map fst acc) \<Longrightarrow> distinct (map fst res)"
proof (induction es arbitrary: acc)
  case Nil
  then show ?case by simp
next
  case (Cons a es)
  obtain k s where a: "a = (k, s)" by (cases a)
  show ?case
  proof (cases "k \<in> set K")
    case True
    then have "validate_entries vf es K u acc = Inr res"
      using Cons.prems a by simp
    from Cons.IH [OF this Cons.prems(2)] show ?thesis .
  next
    case False
    then obtain x y where "get_prop u k = Inr x" "vf s x = Inr y"
      and rest: "validate_entries vf es K u (set_prop acc k y) = Inr res"
      using Cons.prems a by (auto split: sum.splits)
    have "distinct (map fst (set_prop acc k y))"
      using Cons.prems(2) by (simp add: set_prop_def distinct_update)
    from Cons.IH [OF rest this] show ?thesis .
  qed
qed

lemma map_of_fold_update:
  "distinct (map fst s) \<Longrightarrow>
     map_of (fold (\<lambda>(k, v) t. set_prop t k v) s t) = map_of t ++ map_of s"
proof (induction s arbitrary: t)
  case Nil
  then show ?case by simp
next
  case (Cons a s)
  obtain k v where a: "a = (k, v)" by (cases a)
  have k: "k \<notin> dom (map_of s)"
    using Cons.prems a by (simp add: dom_map_of_conv_image_fst)
  have "map_of (fold (\<lambda>(k, v) t. set_prop t k v) (a # s) t)
      = map_of (set_prop t k v) ++ map_of s"
    using Cons.IH [of "set_prop t k v"] Cons.prems a by simp
  also have "\<dots> = (map_of t)(k \<mapsto> v) ++ map_of s"
    by (simp add: set_prop_def update_conv')
  also have "\<dots> = map_of t ++ map_of (a # s)"
    using k by (simp add: a map_add_upd_left)
  finally show ?case .
qed


lemma distinct_fold_update:
  "distinct (map fst t) \<Longrightarrow> distinct (map fst (fold (\<lambda>(k, v) t. set_prop t k v) s t))"
  by (induction s arbitrary: t) (auto simp: set_prop_def distinct_update)


lemma map_of_object_assign:
  "distinct (map fst s) \<Longrightarrow> map_of (object_assign t (VObj s)) = map_of t ++ map_of s"
  by (simp add: object_assign_def map_of_fold_update)

lemma validate_RecordType_result:
  "validate (RecordType name schema) u K = Inr r \<Longrightarrow>
     \<exists>res. r = VObj res \<and> distinct (map fst res) \<and> fst ` set res = fst ` set schema - set K"
proof -
  assume v: "validate (RecordType name schema) u K = Inr r"
  then obtain res where res: "validate_entries (\<lambda>s x. validate s x []) schema K u [] = Inr res"
    and r: "r = VObj res"
    by (auto simp: validate_record_def split: if_splits sum.splits)
  show ?thesis
    using validate_entries_keys [OF res] validate_entries_distinct [OF res] r by simp
qed

lemma distinct_object_assign:
  "distinct (map fst t) \<Longrightarrow> distinct (map fst (object_assign t src))"
  by (simp add: object_assign_def distinct_fold_update)


lemma validate_obj_distinct:
  "validate S u K = Inr (VObj kvs) \<Longrightarrow> distinct (map fst kvs)"
proof (induction S u K arbitrary: kvs rule: validate.induct)
  case (1 name literalValue b ignoredKeys)
  then show ?case by (auto split: jsval.splits option.splits if_splits)
next
  case (2 name literalValues s ignoredKeys)
  then show ?case by (auto split: jsval.splits if_splits)
next
  case (3 name literalValues n ignoredKeys)
  then show ?case by (auto split: jsval.splits if_splits)
next
  case (4 name u ignoredKeys)
  then show ?case by (auto split: jsval.splits)
next
  case (5 base u ignoredKeys)
  then show ?case by (auto split: if_splits)
next
  case (6 name schema u ignoredKeys)
  from validate_RecordType_result [OF 6(2)] show ?case by auto
next
  case (7 name baseType schema u ignoredKeys)
  then show ?case
    by (auto split: sum.splits intro!: distinct_object_assign)
next
  case (8 name discriminator schemas u ignoredKeys)
  then show ?case
    by (auto split: sum.splits option.splits)
next
  case (9 name itemSchema u ignoredKeys)
  then show ?case by (auto split: jsval.splits sum.splits)
qed



section \<open>Validating a validated value\<close>





















section \<open>Number literals\<close>

lemma is_zero_not_nan: "is_zero w \<Longrightarrow> \<not> is_nan w"
proof -
  assume z: "is_zero w"
  have "w AND 0x7FF0000000000000 = (w AND 0x7FFFFFFFFFFFFFFF) AND 0x7FF0000000000000"
    by (simp add: and.assoc)
  also have "\<dots> = 0"
    using z by (simp add: is_zero_def)
  finally show "\<not> is_nan w"
    by (simp add: is_nan_def)
qed

text \<open>
  C9 (as amended). The literal values of \<open>num\<close> are searched with
  \<open>Array.prototype.includes\<close>, that is with SameValueZero: for a non-empty list of
  literal values and a number \<open>n\<close>, \<open>validate\<close> returns \<open>n\<close> when some literal value is
  the same value as \<open>n\<close>, is a zero like \<open>n\<close>, or is NaN like \<open>n\<close>, and fails with the
  literal error otherwise. SameValueZero is IEEE equality extended by NaN being the same
  as NaN, so \<open>num('x', NaN).validate(NaN)\<close> returns NaN.
\<close>

theorem num_literal_same_value_zero:
  "(literalValues \<noteq> [] \<longrightarrow>
      validate (NumberType name literalValues) (VNum n) ignoredKeys =
        (if list_ex (\<lambda>l. same_value_zero l n) literalValues then Inr (VNum n)
         else Inl (LiteralError name (map VNum literalValues) (VNum n))))
   \<and> (same_value_zero l n \<longleftrightarrow> strict_equals_num l n \<or> (is_nan l \<and> is_nan n))
   \<and> validate (NumberType ''x'' [nan]) (VNum nan) [] = Inr (VNum nan)"
proof (intro conjI impI)
  assume "literalValues \<noteq> []"
  then show "validate (NumberType name literalValues) (VNum n) ignoredKeys =
      (if list_ex (\<lambda>l. same_value_zero l n) literalValues then Inr (VNum n)
       else Inl (LiteralError name (map VNum literalValues) (VNum n)))"
    by (simp add: includes_num_def)
next
  show "same_value_zero l n \<longleftrightarrow> strict_equals_num l n \<or> (is_nan l \<and> is_nan n)"
    using is_zero_not_nan [of l] is_zero_not_nan [of n]
    by (auto simp: same_value_zero_def strict_equals_num_def)
next
  show "validate (NumberType ''x'' [nan]) (VNum nan) [] = Inr (VNum nan)"
    by (simp add: eval_defs)
qed

theorem num_literal_same_value_zero_witness:
  "[0x3FF0000000000000, 0x4000000000000000 :: f64] \<noteq> []
   \<and> validate (NumberType ''n'' [0x3FF0000000000000, 0x4000000000000000]) (VNum 0x4000000000000000) []
       = Inr (VNum 0x4000000000000000)
   \<and> validate (NumberType ''n'' [0x3FF0000000000000, 0x4000000000000000]) (VNum 0x4014000000000000) []
       = Inl (LiteralError ''n'' [VNum 0x3FF0000000000000, VNum 0x4000000000000000] (VNum 0x4014000000000000))"
  using num_literal_same_value_zero
      [THEN conjunct1, of "[0x3FF0000000000000, 0x4000000000000000]" "''n''" "0x4000000000000000" "[]"]
    num_literal_same_value_zero
      [THEN conjunct1, of "[0x3FF0000000000000, 0x4000000000000000]" "''n''" "0x4014000000000000" "[]"]
  by (simp add: eval_defs)

text \<open>
  C9 (as stated) fails: NaN is not exactly equal to the only literal value NaN, and
  \<open>num('x', NaN).validate(NaN)\<close> still returns NaN.
\<close>

theorem num_nan_literal_counterexample:
  "\<not> strict_equals_num nan nan \<and> validate (NumberType ''x'' [nan]) (VNum nan) [] = Inr (VNum nan)"
  by (simp add: eval_defs strict_equals_num_def)

section \<open>Records and values that are not plain objects\<close>

text \<open>
  C2. A record schema is to reject every value that is not mapping-shaped with the
  structured failure. On \<open>null\<close> the guard \<open>typeof u !== 'object'\<close> lets the value pass:
  a record with a field then fails with a \<open>TypeError\<close> of the runtime at \<open>u[key]\<close>, a
  record without fields accepts \<open>null\<close>, and an array is accepted as an object.
\<close>

theorem record_validate_null:
  "validate (RecordType ''r'' [(''a'', NumberType ''a'' [])]) VNull [] = Inl JsTypeError
   \<and> validate (RecordType ''r'' []) VNull [] = Inr (VObj [])
   \<and> validate (RecordType ''r'' [(''a'', OptionalType (NumberType ''a'' []))]) (VArr []) []
       = Inr (VObj [(''a'', VUndefined)])"
  by (simp add: eval_defs)

text \<open>
  An array that passes the guard is read like an object, its \<open>length\<close> included.
\<close>

lemma record_validate_array_length:
  "validate (RecordType ''r'' [(''length'', NumberType ''n'' [])]) (VArr [VNull, VNull]) []
     = Inr (VObj [(''length'', VNum 0x4000000000000000)])"
  by (simp add: eval_defs f64_of_nat_def numeral_2_eq_2)

section \<open>Unions of records and extensions\<close>

text \<open>
  When every branch is a record or an extension, \<open>validate\<close> of the union returns the
  full validation against the first branch whose probe succeeds, and the structured
  failure of expected type \<open>union\<close> when there is none.
\<close>

lemma validate_entries_ignored_set:
  "set K = set K' \<Longrightarrow> validate_entries vf es K u acc = validate_entries vf es K' u acc"
  by (induction es arbitrary: acc) (auto split: sum.splits)

lemma validate_ignored_set:
  "set K = set K' \<Longrightarrow> validate S u K = validate S u K'"
  by (cases S) (simp_all add: validate_record_def validate_entries_ignored_set [of K K'])

lemma fielded_branch_probe:
  assumes "fielded_branch d s"
  shows "\<exists>keys. schema_keys s = Some keys
    \<and> validate s u (splice_discriminator d keys) = validate s u (probe_keys d s)"
proof (cases s)
  case (RecordType name schema)
  then have d: "d \<in> set (map fst schema)" and dist: "distinct (map fst schema)"
    using assms by simp_all
  have "set (splice_discriminator d (map fst schema)) = set (filter (\<lambda>k. k \<noteq> d) (map fst schema))"
    using d dist by (auto simp: splice_discriminator_def set_remove1_eq)
  from validate_ignored_set [OF this, of s u] show ?thesis
    unfolding RecordType by (simp add: probe_keys_def)
next
  case (ExtendsType name baseType schema)
  then show ?thesis by (simp add: probe_keys_def)
qed (use assms in simp_all)

lemma find_schema_first_match:
  "list_all (fielded_branch d) ss \<Longrightarrow>
     find_schema (\<lambda>s keys. validate s u keys) d ss = Inr (find (probe d u) ss)"
proof (induction ss)
  case Nil
  then show ?case by simp
next
  case (Cons s ss)
  from Cons.prems have s: "fielded_branch d s" and rest: "list_all (fielded_branch d) ss"
    by simp_all
  from fielded_branch_probe [OF s, of u] obtain keys where k: "schema_keys s = Some keys"
    and v: "validate s u (splice_discriminator d keys) = validate s u (probe_keys d s)"
    by auto
  show ?case
    using k v Cons.IH [OF rest] by (simp add: probe_def split: sum.splits)
qed

lemma union_validate_first_match:
  "list_all (fielded_branch d) ss \<Longrightarrow>
     validate (UnionRecordType name d ss) u K =
       (case find (probe d u) ss of
          None \<Rightarrow> Inl (InvalidTypeError name ''union'' u)
        | Some s \<Rightarrow> validate s u [])"
  by (simp add: find_schema_first_match split: option.splits)

section \<open>Unions with a union as branch\<close>

text \<open>
  C1. A union is to select the first branch whose probe succeeds and to return the full
  validation of the value against it. Here the only branch of \<open>outer\<close> is the union
  \<open>inner\<close>, both constructors succeed and \<open>inner\<close> accepts the value; \<open>outer.validate\<close>
  reads \<open>Object.keys(s.schema)\<close> of the branch, which a union does not have, and fails
  with a \<open>TypeError\<close> of the runtime.
\<close>

theorem union_of_union_validate:
  "union ''inner'' ''kind'' [RecordType ''r'' [(''kind'', StringType ''kind'' [])]]
     = Inr (UnionRecordType ''inner'' ''kind'' [RecordType ''r'' [(''kind'', StringType ''kind'' [])]])
   \<and> union ''outer'' ''kind''
       [UnionRecordType ''inner'' ''kind'' [RecordType ''r'' [(''kind'', StringType ''kind'' [])]]]
     = Inr (UnionRecordType ''outer'' ''kind''
         [UnionRecordType ''inner'' ''kind'' [RecordType ''r'' [(''kind'', StringType ''kind'' [])]]])
   \<and> validate (UnionRecordType ''inner'' ''kind'' [RecordType ''r'' [(''kind'', StringType ''kind'' [])]])
       (VObj [(''kind'', VStr ''a'')]) [] = Inr (VObj [(''kind'', VStr ''a'')])
   \<and> validate (UnionRecordType ''outer'' ''kind''
         [UnionRecordType ''inner'' ''kind'' [RecordType ''r'' [(''kind'', StringType ''kind'' [])]]])
       (VObj [(''kind'', VStr ''a'')]) [] = Inl JsTypeError"
  by (simp add: eval_defs)

text \<open>
  C6. When no branch accepts the value the union is to fail with the structured failure
  of expected type \<open>union\<close> that names it. Here the only branch of \<open>outer\<close> is a union
  that rejects the value, and \<open>outer.validate\<close> fails with a \<open>TypeError\<close> of the runtime
  instead.
\<close>

theorem union_no_match_union_branch:
  "union ''outer'' ''kind''
       [UnionRecordType ''inner'' ''kind'' [RecordType ''r'' [(''kind'', StringType ''kind'' [''a''])]]]
     = Inr (UnionRecordType ''outer'' ''kind''
         [UnionRecordType ''inner'' ''kind'' [RecordType ''r'' [(''kind'', StringType ''kind'' [''a''])]]])
   \<and> validate (UnionRecordType ''inner'' ''kind'' [RecordType ''r'' [(''kind'', StringType ''kind'' [''a''])]])
       (VObj [(''kind'', VStr ''b'')]) []
     = Inl (InvalidTypeError ''inner'' ''union'' (VObj [(''kind'', VStr ''b'')]))
   \<and> validate (UnionRecordType ''outer'' ''kind''
         [UnionRecordType ''inner'' ''kind'' [RecordType ''r'' [(''kind'', StringType ''kind'' [''a''])]]])
       (VObj [(''kind'', VStr ''b'')]) [] = Inl JsTypeError"
  by (simp add: eval_defs)

section \<open>Extensions\<close>

text \<open>
  C10. \<open>ExtendsType.validate\<close> takes the value only: whatever ignored keys a caller
  passes, the result is that of the call without them. So the probe a union makes of a
  branch that is an extension is the full validation of the value against that branch.
\<close>

theorem extends_validate_ignores_ignoredKeys:
  "validate (ExtendsType name baseType schema) u ignoredKeys
     = validate (ExtendsType name baseType schema) u []
   \<and> find_schema (\<lambda>s keys. validate s u keys) discriminator (ExtendsType name baseType schema # rest)
     = (case validate (ExtendsType name baseType schema) u [] of
          Inr v \<Rightarrow> Inr (Some (ExtendsType name baseType schema))
        | Inl e \<Rightarrow> find_schema (\<lambda>s keys. validate s u keys) discriminator rest)"
  by simp

text \<open>
  C3. \<open>extend(name, base, ownFields).validate(v)\<close> validates \<open>v\<close> against the base with
  the names of the own fields as ignored keys, then against the record of the own fields
  with nothing ignored. A failure of the base, or else of the own fields, is the failure
  of the extension; when both succeed the result is an object that has every own field
  with its own-fields value and every other field of the base result with the base's
  value. So \<open>extend('E', rec('B', {p: str}), {p: num})\<close> accepts \<open>{p: 5}\<close>, which
  \<open>B.validate\<close> rejects.
\<close>

theorem extends_validate_merge:
  "(\<forall>e. validate baseType u (map fst schema) = Inl e \<longrightarrow>
        validate (ExtendsType name baseType schema) u ignoredKeys = Inl e)
   \<and> (\<forall>b e. validate baseType u (map fst schema) = Inr b \<longrightarrow>
        validate (RecordType name schema) u [] = Inl e \<longrightarrow>
        validate (ExtendsType name baseType schema) u ignoredKeys = Inl e)
   \<and> (\<forall>b s. validate baseType u (map fst schema) = Inr (VObj b) \<longrightarrow>
        validate (RecordType name schema) u [] = Inr s \<longrightarrow>
        (\<exists>r own. s = VObj own \<and> fst ` set own = fst ` set schema
           \<and> validate (ExtendsType name baseType schema) u ignoredKeys = Inr (VObj r)
           \<and> map_of r = map_of b ++ map_of own))
   \<and> validate (ExtendsType ''E'' (RecordType ''B'' [(''p'', StringType ''p'' [])])
         [(''p'', NumberType ''p'' [])]) (VObj [(''p'', VNum 0x4014000000000000)]) []
       = Inr (VObj [(''p'', VNum 0x4014000000000000)])
   \<and> validate (RecordType ''B'' [(''p'', StringType ''p'' [])])
         (VObj [(''p'', VNum 0x4014000000000000)]) []
       = Inl (InvalidTypeError ''p'' ''string'' (VNum 0x4014000000000000))"
proof (intro conjI allI impI)
  fix e
  assume "validate baseType u (map fst schema) = Inl e"
  then show "validate (ExtendsType name baseType schema) u ignoredKeys = Inl e"
    by simp
next
  fix b e
  assume "validate baseType u (map fst schema) = Inr b"
    and "validate (RecordType name schema) u [] = Inl e"
  then show "validate (ExtendsType name baseType schema) u ignoredKeys = Inl e"
    by simp
next
  fix b s
  assume b: "validate baseType u (map fst schema) = Inr (VObj b)"
    and s: "validate (RecordType name schema) u [] = Inr s"
  from validate_RecordType_result [OF s]
  obtain own where own: "s = VObj own" "distinct (map fst own)" "fst ` set own = fst ` set schema"
    by auto
  have "validate (ExtendsType name baseType schema) u ignoredKeys
      = Inr (VObj (object_assign (object_assign [] (VObj b)) (VObj own)))"
    using b s own(1) by simp
  moreover have "map_of (object_assign (object_assign [] (VObj b)) (VObj own))
      = map_of (object_assign [] (VObj b)) ++ map_of own"
    by (rule map_of_object_assign [OF own(2)])
  moreover have "map_of (object_assign [] (VObj b)) = map_of b"
    using map_of_object_assign [OF validate_obj_distinct [OF b], of "[]"] by simp
  ultimately show "\<exists>r own. s = VObj own \<and> fst ` set own = fst ` set schema
           \<and> validate (ExtendsType name baseType schema) u ignoredKeys = Inr (VObj r)
           \<and> map_of r = map_of b ++ map_of own"
    using own by auto
next
  show "validate (ExtendsType ''E'' (RecordType ''B'' [(''p'', StringType ''p'' [])])
         [(''p'', NumberType ''p'' [])]) (VObj [(''p'', VNum 0x4014000000000000)]) []
       = Inr (VObj [(''p'', VNum 0x4014000000000000)])"
    by (simp add: eval_defs)
next
  show "validate (RecordType ''B'' [(''p'', StringType ''p'' [])])
         (VObj [(''p'', VNum 0x4014000000000000)]) []
       = Inl (InvalidTypeError ''p'' ''string'' (VNum 0x4014000000000000))"
    by (simp add: eval_defs)
qed

theorem extends_validate_merge_witness:
  "validate (RecordType ''base'' [(''prop1'', StringType ''prop1'' []), (''prop2'', BoolType ''prop2'' None)])
       (VObj [(''prop1'', VStr ''hello''), (''prop2'', VStr ''world'')]) [''prop2'']
     = Inr (VObj [(''prop1'', VStr ''hello'')])
   \<and> validate (RecordType ''extended'' [(''prop2'', StringType ''prop2str'' [])])
       (VObj [(''prop1'', VStr ''hello''), (''prop2'', VStr ''world'')]) []
     = Inr (VObj [(''prop2'', VStr ''world'')])
   \<and> (\<exists>r. validate
         (ExtendsType ''extended''
            (RecordType ''base'' [(''prop1'', StringType ''prop1'' []), (''prop2'', BoolType ''prop2'' None)])
            [(''prop2'', StringType ''prop2str'' [])])
         (VObj [(''prop1'', VStr ''hello''), (''prop2'', VStr ''world'')]) [] = Inr (VObj r)
       \<and> map_of r = map_of [(''prop1'', VStr ''hello'')] ++ map_of [(''prop2'', VStr ''world'')])"
proof -
  have h1: "validate (RecordType ''base'' [(''prop1'', StringType ''prop1'' []), (''prop2'', BoolType ''prop2'' None)])
       (VObj [(''prop1'', VStr ''hello''), (''prop2'', VStr ''world'')]) (map fst [(''prop2'', StringType ''prop2str'' [])])
     = Inr (VObj [(''prop1'', VStr ''hello'')])"
    by (simp add: eval_defs)
  have h2: "validate (RecordType ''extended'' [(''prop2'', StringType ''prop2str'' [])])
       (VObj [(''prop1'', VStr ''hello''), (''prop2'', VStr ''world'')]) []
     = Inr (VObj [(''prop2'', VStr ''world'')])"
    by (simp add: eval_defs)
  from extends_validate_merge
    [THEN conjunct2, THEN conjunct2, THEN conjunct1, rule_format, OF h1 h2, of "[]"]
  show ?thesis
    using h1 h2 by auto
qed

section \<open>Construction of unions\<close>

text \<open>
  C5. \<open>union(name, discriminator, branches)\<close>, for branches that are records, extensions
  or unions, fails in the constructor with the missing-discriminator error that names the
  first branch without the discriminator field, the union and the field; it returns the
  union node exactly when \<open>hasKey(discriminator)\<close> holds of every branch. No schema
  object exists after the failure, so nothing can be validated or serialized with it.
\<close>

theorem union_construction:
  assumes "list_all recordish schemas"
  shows "union name discriminator schemas =
      (case find (\<lambda>s. hasKey s discriminator = Some False) schemas of
         None \<Rightarrow> Inr (UnionRecordType name discriminator schemas)
       | Some s \<Rightarrow> Inl (MissingDiscriminator (schema_name s) name discriminator))
    \<and> ((\<exists>u. union name discriminator schemas = Inr u)
         \<longleftrightarrow> list_all (\<lambda>s. hasKey s discriminator = Some True) schemas)"
proof
  show "union name discriminator schemas =
      (case find (\<lambda>s. hasKey s discriminator = Some False) schemas of
         None \<Rightarrow> Inr (UnionRecordType name discriminator schemas)
       | Some s \<Rightarrow> Inl (MissingDiscriminator (schema_name s) name discriminator))"
    by (simp add: union_def check_subschemas_find [OF assms] split: option.splits)
next
  show "(\<exists>u. union name discriminator schemas = Inr u)
         \<longleftrightarrow> list_all (\<lambda>s. hasKey s discriminator = Some True) schemas"
    using check_subschemas_None [OF assms, of name discriminator]
    by (auto simp: union_def split: option.splits)
qed

theorem union_construction_witness:
  "list_all recordish
     [RecordType ''someRec1'' [(''success'', BoolType ''success'' (Some True))],
      RecordType ''someRec2'' [(''prop1'', BoolType ''prop1'' None)]]
   \<and> union ''someUnion'' ''success''
     [RecordType ''someRec1'' [(''success'', BoolType ''success'' (Some True))],
      RecordType ''someRec2'' [(''prop1'', BoolType ''prop1'' None)]]
     = Inl (MissingDiscriminator ''someRec2'' ''someUnion'' ''success'')
   \<and> list_all recordish
     [RecordType ''someRec1'' [(''success'', BoolType ''success'' (Some True))]]
   \<and> union ''someUnion'' ''success''
     [RecordType ''someRec1'' [(''success'', BoolType ''success'' (Some True))]]
     = Inr (UnionRecordType ''someUnion'' ''success''
         [RecordType ''someRec1'' [(''success'', BoolType ''success'' (Some True))]])"
proof -
  have h1: "list_all recordish
     [RecordType ''someRec1'' [(''success'', BoolType ''success'' (Some True))],
      RecordType ''someRec2'' [(''prop1'', BoolType ''prop1'' None)]]"
    by simp
  have h2: "list_all recordish
     [RecordType ''someRec1'' [(''success'', BoolType ''success'' (Some True))]]"
    by simp
  show ?thesis
    using h1 h2
      union_construction [OF h1, of "''someUnion''" "''success''", THEN conjunct1]
      union_construction [OF h2, of "''someUnion''" "''success''", THEN conjunct1]
    by simp
qed

section \<open>Field pruning\<close>



section \<open>Idempotence\<close>




text \<open>
  Unions outside the class: with a branch that is an extension the probe is a full
  validation, and a branch rejected on the value can accept the pruned result; with a
  discriminator field that is a record, the discriminator of the result can match an
  earlier branch.
\<close>

lemma union_extension_branch_revalidate:
  "validate (UnionRecordType ''u'' ''kind''
       [ExtendsType ''X'' (RecordType ''B'' [(''kind'', StringType ''kind'' [])])
          [(''foo'', OptionalType (NumberType ''foo'' []))],
        RecordType ''S'' [(''kind'', StringType ''kind'' [])]])
     (VObj [(''kind'', VStr ''a''), (''foo'', VStr ''bad'')]) []
     = Inr (VObj [(''kind'', VStr ''a'')])
   \<and> validate (UnionRecordType ''u'' ''kind''
       [ExtendsType ''X'' (RecordType ''B'' [(''kind'', StringType ''kind'' [])])
          [(''foo'', OptionalType (NumberType ''foo'' []))],
        RecordType ''S'' [(''kind'', StringType ''kind'' [])]])
     (VObj [(''kind'', VStr ''a'')]) []
     = Inr (VObj [(''kind'', VStr ''a''), (''foo'', VUndefined)])"
  by (simp add: eval_defs)

lemma union_record_discriminator_revalidate:
  "validate (UnionRecordType ''u'' ''kind''
       [RecordType ''R1'' [(''kind'', RecordType ''D1'' [(''x'', OptionalType (NumberType ''x'' []))]),
                          (''z'', NumberType ''z'' [])],
        RecordType ''R2'' [(''kind'', RecordType ''D2'' [])]])
     (VObj [(''kind'', VObj [(''x'', VStr ''s'')])]) []
     = Inr (VObj [(''kind'', VObj [])])
   \<and> validate (UnionRecordType ''u'' ''kind''
       [RecordType ''R1'' [(''kind'', RecordType ''D1'' [(''x'', OptionalType (NumberType ''x'' []))]),
                          (''z'', NumberType ''z'' [])],
        RecordType ''R2'' [(''kind'', RecordType ''D2'' [])]])
     (VObj [(''kind'', VObj [])]) []
     = Inl (InvalidTypeError ''z'' ''number'' VUndefined)"
  by (simp add: eval_defs)

section \<open>Round trip\<close>




end
